theory Spec2Isabelle
  imports Main "HOL-Library.Word"
begin

section \<open>The event JSON table of the roomserver (sqlite3 backend)\<close>

text \<open>
  The file \<^verbatim>\<open>roomserver/storage/sqlite3/event_json_table.go\<close> declares one table,
  \<^verbatim>\<open>roomserver_event_json\<close>, two SQL statements on it and the two Go functions
  \<^verbatim>\<open>insertEventJSON\<close> and \<^verbatim>\<open>bulkSelectEventJSON\<close> that run them.

  The database engine and Go's \<^verbatim>\<open>database/sql\<close> package are outside the file. The
  model gives the three SQL texts their meaning on an explicit table value, and takes the
  ways in which the driver can fail during one call as a parameter of that call.
\<close>

subsection \<open>Data\<close>

text \<open>
  \<^verbatim>\<open>types.EventNID\<close> is a Go \<^verbatim>\<open>int64\<close> and the column \<^verbatim>\<open>event_nid\<close> an SQLite
  \<^verbatim>\<open>INTEGER\<close>: a 64-bit word, read as two's complement by \<open>sint\<close> wherever
  the engine compares. A Go \<^verbatim>\<open>[]byte\<close> is either the \<^verbatim>\<open>nil\<close> slice, \<open>None\<close>,
  or a slice of zero or more bytes, \<open>Some bs\<close>; the driver binds the first as SQL
  \<^verbatim>\<open>NULL\<close> and the second as a value of that length.
\<close>

type_synonym event_nid = "64 word"
type_synonym bytes = "8 word list"
type_synonym byte_slice = "bytes option"

text \<open>
  A row of \<^verbatim>\<open>roomserver_event_json\<close>: \<^verbatim>\<open>(event_nid, event_json)\<close>. Both columns are
  \<^verbatim>\<open>NOT NULL\<close>, so a stored \<^verbatim>\<open>event_json\<close> is always a value.
\<close>

type_synonym row = "event_nid \<times> bytes"

text \<open>The table, as the list of its rows in insertion order.\<close>

type_synonym table = "row list"

text \<open>\<^verbatim>\<open>type eventJSONPair struct { EventNID types.EventNID; EventJSON []byte }\<close>\<close>

record eventJSONPair =
  EventNID :: event_nid
  EventJSON :: byte_slice

text \<open>
  The values of Go's \<^verbatim>\<open>error\<close> that the driver hands to the two functions:
  \<^verbatim>\<open>context.Canceled\<close>, \<^verbatim>\<open>context.DeadlineExceeded\<close>, and any other error of the
  engine or of \<^verbatim>\<open>Scan\<close>, with its message.
\<close>

datatype go_error = Canceled | DeadlineExceeded | StorageError string

text \<open>
  A call of \<^verbatim>\<open>bulkSelectEventJSON\<close> ends in one of three ways: it returns
  \<^verbatim>\<open>(results[:i], nil)\<close>, it returns \<^verbatim>\<open>(nil, err)\<close>, or the indexing
  \<^verbatim>\<open>results[i]\<close> panics. The last two are the failures.
\<close>

datatype failure = Err go_error | Panic_index_out_of_range

subsection \<open>The schema and the two statements\<close>

text \<open>
  \<^verbatim>\<open>event_nid INTEGER NOT NULL PRIMARY KEY\<close>: no two rows share an \<^verbatim>\<open>event_nid\<close>.
  That no stored column is \<^verbatim>\<open>NULL\<close> is in the type of \<open>row\<close>; the insert
  statement below enforces it.
\<close>

definition eventJSONSchema :: "table \<Rightarrow> bool" where
  "eventJSONSchema t = distinct (map fst t)"

text \<open>
  \<^verbatim>\<open>INSERT INTO roomserver_event_json (event_nid, event_json) VALUES ($1, $2)
  ON CONFLICT DO NOTHING\<close>. The engine checks \<^verbatim>\<open>NOT NULL\<close> first: a \<^verbatim>\<open>NULL\<close> bound
  to \<^verbatim>\<open>$2\<close> fails the statement with a constraint error, which
  \<^verbatim>\<open>ON CONFLICT DO NOTHING\<close> does not cover. Otherwise a row whose key is already in
  the table is not inserted, and the statement still succeeds.
\<close>

definition insertEventJSONSQL :: "table \<Rightarrow> event_nid \<Rightarrow> byte_slice \<Rightarrow> go_error + table" where
  "insertEventJSONSQL t nid js =
     (case js of
        None \<Rightarrow> Inl (StorageError ''NOT NULL constraint failed: roomserver_event_json.event_json'')
      | Some bs \<Rightarrow> Inr (if nid \<in> fst ` set t then t else t @ [(nid, bs)]))"

text \<open>
  The engine refuses to compile a statement with more SQL variables than its limit
  \<^verbatim>\<open>SQLITE_MAX_VARIABLE_NUMBER\<close>, with the error \<^verbatim>\<open>too many SQL variables\<close>. The limit
  is a constant of the engine's build, not of this file; 999 is the default of the SQLite
  releases before 3.32.0, which the driver in use at the time of this code embeds.
\<close>

definition SQLITE_MAX_VARIABLE_NUMBER :: nat where
  "SQLITE_MAX_VARIABLE_NUMBER = 999"

definition sqlite3_prepare :: "nat \<Rightarrow> go_error option" where
  "sqlite3_prepare nvars =
     (if nvars > SQLITE_MAX_VARIABLE_NUMBER then Some (StorageError ''too many SQL variables'')
      else None)"

text \<open>
  \<^verbatim>\<open>SELECT event_nid, event_json FROM roomserver_event_json
  WHERE event_nid IN ($1, ..., $n) ORDER BY event_nid ASC\<close>, the text after
  \<^verbatim>\<open>strings.Replace\<close> has put \<^verbatim>\<open>common.QueryVariadic(n)\<close> in the place of
  \<^verbatim>\<open>($1)\<close>; \<open>args\<close> are the \<open>n\<close> values bound to the placeholders.
\<close>

definition bulkSelectEventJSONSQL :: "table \<Rightarrow> event_nid list \<Rightarrow> row list" where
  "bulkSelectEventJSONSQL t args =
     sort_key (\<lambda>r. sint (fst r)) (filter (\<lambda>r. fst r \<in> set args) t)"

text \<open>The payload stored for an identifier, if any.\<close>

definition stored :: "table \<Rightarrow> event_nid \<Rightarrow> bytes option" where
  "stored t nid = map_of t nid"

subsection \<open>The driver\<close>

text \<open>
  What the driver does wrong during one call, if anything: the statement itself fails
  (\<^verbatim>\<open>ExecContext\<close> or \<^verbatim>\<open>QueryContext\<close> returns the error); fetching row number
  \<open>n\<close> fails, so that \<^verbatim>\<open>rows.Next()\<close> returns false there and \<^verbatim>\<open>rows.Err()\<close> holds
  the error; or \<^verbatim>\<open>rows.Scan\<close> of row number \<open>n\<close> returns the error. Rows are counted
  from 0. A cancelled or expired context is one of these with the error \<open>Canceled\<close>
  or \<open>DeadlineExceeded\<close>, at the point the call has reached.
\<close>

datatype fault =
  NoFault
  | StmtFails go_error
  | NextFails nat go_error
  | ScanFails nat go_error

text \<open>
  \<^verbatim>\<open>sql.Rows\<close>: the rows still to be delivered, each with the outcome of its
  \<^verbatim>\<open>Scan\<close>, and the error \<^verbatim>\<open>rows.Err()\<close> reports once \<^verbatim>\<open>rows.Next()\<close> has
  returned false.
\<close>

datatype rows = Rows (pending: "(go_error + row) list") (lasterr: "go_error option")

text \<open>
  \<^verbatim>\<open>ExecContext(ctx, int64(eventNID), eventJSON)\<close> on the insert statement: the
  error, and the table afterwards. The error is the driver's fault, if there is one, or
  else the error of the statement itself. A failed statement leaves the table as it was.
  The faults \<open>NextFails\<close> and \<open>ScanFails\<close> concern a cursor; a statement that
  returns no rows has none, and runs as with \<open>NoFault\<close>. (The statement has two
  variables, which is below the engine's limit.)
\<close>

definition ExecContext :: "fault \<Rightarrow> table \<Rightarrow> event_nid \<Rightarrow> byte_slice \<Rightarrow> go_error option \<times> table" where
  "ExecContext f t nid js =
     (case f of
        StmtFails e \<Rightarrow> (Some e, t)
      | _ \<Rightarrow>
          (case insertEventJSONSQL t nid js of
             Inl e \<Rightarrow> (Some e, t)
           | Inr t' \<Rightarrow> (None, t')))"

text \<open>
  The cursor over the selected rows \<open>sel\<close>, as the driver's fault shapes it: all the
  rows; the rows before number \<open>n\<close>, with the error left in \<^verbatim>\<open>rows.Err()\<close>; or all
  the rows, with the \<^verbatim>\<open>Scan\<close> of number \<open>n\<close> failing.
\<close>

fun open_rows :: "fault \<Rightarrow> row list \<Rightarrow> rows" where
  "open_rows (NextFails n e) sel = Rows (map Inr (take n sel)) (Some e)"
| "open_rows (ScanFails n e) sel = Rows ((map Inr sel)[n := Inl e]) None"
| "open_rows _ sel = Rows (map Inr sel) None"

text \<open>
  \<^verbatim>\<open>txn.QueryContext(ctx, selectOrig, iEventNIDs...)\<close>: the error or the cursor, and
  the table afterwards. \<^verbatim>\<open>selectOrig\<close> has one variable for each element of
  \<^verbatim>\<open>iEventNIDs\<close>, duplicates included, so a list longer than the engine's limit fails
  here, whatever the table holds.
\<close>

definition QueryContext :: "fault \<Rightarrow> table \<Rightarrow> event_nid list \<Rightarrow> (go_error + rows) \<times> table" where
  "QueryContext f t args =
     (case f of
        StmtFails e \<Rightarrow> (Inl e, t)
      | _ \<Rightarrow>
          (case sqlite3_prepare (length args) of
             Some e \<Rightarrow> (Inl e, t)
           | None \<Rightarrow> (Inr (open_rows f (bulkSelectEventJSONSQL t args)), t)))"

subsection \<open>The two functions\<close>

text \<open>
  \<^verbatim>\<open>func (s *eventJSONStatements) insertEventJSON(ctx, txn, eventNID, eventJSON) error\<close>
  returns the error of \<^verbatim>\<open>ExecContext\<close>.
\<close>

definition insertEventJSON :: "fault \<Rightarrow> table \<Rightarrow> event_nid \<Rightarrow> byte_slice \<Rightarrow> go_error option \<times> table" where
  "insertEventJSON f t eventNID eventJSON = ExecContext f t eventNID eventJSON"

text \<open>
  The loop \<^verbatim>\<open>for ; rows.Next(); i++ { result := &results[i]; ... }\<close>. It ends when
  \<^verbatim>\<open>rows.Next()\<close> is false; \<^verbatim>\<open>rows.Err()\<close> is not read. \<^verbatim>\<open>&results[i]\<close> panics
  when \<open>i\<close> is not below the length of the slice; a failed \<^verbatim>\<open>Scan\<close> returns its
  error at once; a successful one leaves the column's bytes in \<^verbatim>\<open>result.EventJSON\<close>.
\<close>

function read_rows :: "rows \<Rightarrow> nat \<Rightarrow> eventJSONPair list \<Rightarrow> failure + (nat \<times> eventJSONPair list)" where
  "read_rows (Rows [] le) i results = Inr (i, results)"
| "read_rows (Rows (r # rs) le) i results =
     (if i < length results then
        (case r of
           Inl err \<Rightarrow> Inl (Err err)
         | Inr (eventNID, js) \<Rightarrow>
             read_rows (Rows rs le) (i + 1)
               (results[i := \<lparr>EventNID = eventNID, EventJSON = Some js\<rparr>]))
      else Inl Panic_index_out_of_range)"
  by pat_completeness auto
termination
  by (relation "measure (\<lambda>(c, i, results). length (pending c))") auto

text \<open>
  \<^verbatim>\<open>func (s *eventJSONStatements) bulkSelectEventJSON(ctx, txn, eventNIDs)
  ([]eventJSONPair, error)\<close>. \<^verbatim>\<open>make([]eventJSONPair, len(eventNIDs))\<close> is a slice of
  zero values (identifier 0, \<^verbatim>\<open>nil\<close> bytes); \<^verbatim>\<open>results[:i]\<close> its first \<open>i\<close>
  elements.
\<close>

definition bulkSelectEventJSON ::
  "fault \<Rightarrow> table \<Rightarrow> event_nid list \<Rightarrow> (failure + eventJSONPair list) \<times> table" where
  "bulkSelectEventJSON f t eventNIDs =
     (case QueryContext f t eventNIDs of
        (Inl err, t') \<Rightarrow> (Inl (Err err), t')
      | (Inr rows, t') \<Rightarrow>
          (case read_rows rows 0
                  (replicate (length eventNIDs) \<lparr>EventNID = 0, EventJSON = None\<rparr>) of
             Inl fl \<Rightarrow> (Inl fl, t')
           | Inr (i, results) \<Rightarrow> (Inr (take i results), t')))"

subsection \<open>Sequences of calls\<close>

text \<open>The two operations the table exposes, with the driver's behaviour during each.\<close>

datatype call =
  InsertCall fault event_nid byte_slice
  | FetchCall fault "event_nid list"

fun run_call :: "table \<Rightarrow> call \<Rightarrow> table" where
  "run_call t (InsertCall f nid js) = snd (insertEventJSON f t nid js)"
| "run_call t (FetchCall f ids) = snd (bulkSelectEventJSON f t ids)"

definition run_calls :: "table \<Rightarrow> call list \<Rightarrow> table" where
  "run_calls t cs = foldl run_call t cs"

text \<open>The row a result entry stands for.\<close>

definition pair_of :: "row \<Rightarrow> eventJSONPair" where
  "pair_of r = \<lparr>EventNID = fst r, EventJSON = Some (snd r)\<rparr>"

section \<open>Properties\<close>

subsection \<open>The read loop\<close>

lemma read_rows_all:
  "i + length rs \<le> length results \<Longrightarrow>
   read_rows (Rows (map Inr rs) le) i results =
     Inr (i + length rs, take i results @ map pair_of rs @ drop (i + length rs) results)"
proof (induction rs arbitrary: i results)
  case Nil
  then show ?case by simp
next
  case (Cons r rs)
  obtain nid js where r: "r = (nid, js)" by (cases r)
  from Cons.prems have i: "i < length results" by simp
  from Cons.prems have "Suc i + length rs \<le> length (results[i := pair_of r])" by simp
  from Cons.IH [OF this] i r show ?case
    by (simp add: pair_of_def take_Suc_conv_app_nth)
qed

lemma read_rows_no_panic:
  "i + length xs \<le> length results \<Longrightarrow> read_rows (Rows xs le) i results \<noteq> Inl Panic_index_out_of_range"
proof (induction xs arbitrary: i results)
  case Nil
  then show ?case by simp
next
  case (Cons x xs)
  then show ?case by (cases x) (auto split: prod.splits)
qed

lemma read_rows_scan_error:
  "i + length rs < length results \<Longrightarrow>
   read_rows (Rows (map Inr rs @ Inl e # rest) le) i results = Inl (Err e)"
proof (induction rs arbitrary: i results)
  case Nil
  then show ?case by simp
next
  case (Cons r rs)
  obtain nid js where r: "r = (nid, js)" by (cases r)
  from Cons.prems have "Suc i + length rs < length (results[i := \<lparr>EventNID = nid, EventJSON = Some js\<rparr>])"
    by simp
  from Cons.IH [OF this] Cons.prems r show ?case by simp
qed

lemma length_pending_open_rows: "length (pending (open_rows f sel)) \<le> length sel"
  by (cases f) simp_all

subsection \<open>The select statement\<close>

lemma set_bulkSelectEventJSONSQL:
  "set (bulkSelectEventJSONSQL t args) = {r \<in> set t. fst r \<in> set args}"
  by (auto simp: bulkSelectEventJSONSQL_def)

lemma bulkSelectEventJSONSQL_empty: "bulkSelectEventJSONSQL t [] = []"
  by (simp add: bulkSelectEventJSONSQL_def)

lemma schema_select_distinct:
  "eventJSONSchema t \<Longrightarrow> distinct (map fst (bulkSelectEventJSONSQL t args))"
  by (auto simp: eventJSONSchema_def bulkSelectEventJSONSQL_def distinct_map intro: inj_on_subset)

lemma select_strictly_ascending:
  assumes "eventJSONSchema t"
  shows "sorted_wrt (<) (map (\<lambda>r. sint (fst r)) (bulkSelectEventJSONSQL t args))"
proof -
  have "sorted (map (\<lambda>r. sint (fst r)) (bulkSelectEventJSONSQL t args))"
    by (simp add: bulkSelectEventJSONSQL_def)
  moreover have "distinct (map sint (map fst (bulkSelectEventJSONSQL t args)))"
    using schema_select_distinct [OF assms, of args]
    by (simp only: distinct_map) (auto intro: inj_onI signed_word_eqI)
  ultimately show ?thesis
    by (simp add: strict_sorted_iff comp_def)
qed

lemma length_select_le_card:
  assumes "eventJSONSchema t"
  shows "length (bulkSelectEventJSONSQL t args) \<le> card (set args)"
proof -
  let ?sel = "bulkSelectEventJSONSQL t args"
  have "length ?sel = card (set (map fst ?sel))"
    using schema_select_distinct [OF assms, of args] distinct_card [of "map fst ?sel"] by simp
  also have "\<dots> \<le> card (set args)"
    by (rule card_mono) (auto simp: set_bulkSelectEventJSONSQL)
  finally show ?thesis .
qed

lemma length_select_le_length:
  "eventJSONSchema t \<Longrightarrow> length (bulkSelectEventJSONSQL t args) \<le> length args"
  using length_select_le_card [of t args] card_length [of args] by simp

lemma sqlite3_prepare_ok:
  "nvars \<le> SQLITE_MAX_VARIABLE_NUMBER \<Longrightarrow> sqlite3_prepare nvars = None"
  by (simp add: sqlite3_prepare_def)

lemma sqlite3_prepare_too_many:
  "SQLITE_MAX_VARIABLE_NUMBER < nvars \<Longrightarrow>
   sqlite3_prepare nvars = Some (StorageError ''too many SQL variables'')"
  by (simp add: sqlite3_prepare_def)

lemma bulkSelectEventJSON_NoFault:
  assumes "length ids \<le> SQLITE_MAX_VARIABLE_NUMBER"
    and "length (bulkSelectEventJSONSQL t ids) \<le> length ids"
  shows "fst (bulkSelectEventJSON NoFault t ids) = Inr (map pair_of (bulkSelectEventJSONSQL t ids))"
  using assms
  by (simp add: bulkSelectEventJSON_def QueryContext_def sqlite3_prepare_ok read_rows_all)

lemma bulkSelectEventJSON_too_many:
  assumes "SQLITE_MAX_VARIABLE_NUMBER < length ids"
  shows "fst (bulkSelectEventJSON NoFault t ids) = Inl (Err (StorageError ''too many SQL variables''))"
  using assms
  by (simp add: bulkSelectEventJSON_def QueryContext_def sqlite3_prepare_too_many)

lemma bulkSelectEventJSON_no_panic:
  assumes "length (bulkSelectEventJSONSQL t ids) \<le> length ids"
  shows "fst (bulkSelectEventJSON f t ids) \<noteq> Inl Panic_index_out_of_range"
proof -
  let ?c = "open_rows f (bulkSelectEventJSONSQL t ids)"
  let ?zero = "replicate (length ids) \<lparr>EventNID = 0, EventJSON = None\<rparr>"
  have "0 + length (pending ?c) \<le> length ?zero"
    using length_pending_open_rows [of f "bulkSelectEventJSONSQL t ids"] assms by simp
  from read_rows_no_panic [OF this, of "lasterr ?c"]
  have "read_rows ?c 0 ?zero \<noteq> Inl Panic_index_out_of_range"
    by simp
  then show ?thesis
    by (auto simp: bulkSelectEventJSON_def QueryContext_def
          split: fault.splits option.splits sum.splits prod.splits)
qed

subsection \<open>The insert statement\<close>

lemma insertEventJSONSQL_fresh:
  "nid \<notin> fst ` set t \<Longrightarrow> insertEventJSONSQL t nid (Some js) = Inr (t @ [(nid, js)])"
  by (simp add: insertEventJSONSQL_def)

lemma insertEventJSONSQL_present:
  "nid \<in> fst ` set t \<Longrightarrow> insertEventJSONSQL t nid (Some js) = Inr t"
  by (simp add: insertEventJSONSQL_def)

lemma insertEventJSON_fresh:
  "nid \<notin> fst ` set t \<Longrightarrow> insertEventJSON NoFault t nid (Some js) = (None, t @ [(nid, js)])"
  by (simp add: insertEventJSON_def ExecContext_def insertEventJSONSQL_fresh)

lemma insertEventJSON_present:
  "nid \<in> fst ` set t \<Longrightarrow> insertEventJSON NoFault t nid (Some js) = (None, t)"
  by (simp add: insertEventJSON_def ExecContext_def insertEventJSONSQL_present)

lemma select_after_fresh_insert:
  assumes "nid \<notin> fst ` set t"
  shows "bulkSelectEventJSONSQL (t @ [(nid, js)]) [nid] = [(nid, js)]"
proof -
  have "filter (\<lambda>r. fst r \<in> set [nid]) t = []"
    using assms by (auto simp: filter_empty_conv)
  then show ?thesis
    by (simp add: bulkSelectEventJSONSQL_def)
qed

lemma stored_fresh_insert:
  "nid \<notin> fst ` set t \<Longrightarrow> stored (t @ [(nid, js)]) nid = Some js"
  by (simp add: stored_def map_of_eq_None_iff [THEN iffD2] map_add_def)

subsection \<open>Failures that reach the caller\<close>

text \<open>
  An error of \<^verbatim>\<open>ExecContext\<close>, of \<^verbatim>\<open>QueryContext\<close> or of \<^verbatim>\<open>rows.Scan\<close> is
  returned as it is, with no result.
\<close>

lemma query_failure_surfaced:
  "fst (bulkSelectEventJSON (StmtFails e) t ids) = Inl (Err e)"
  by (simp add: bulkSelectEventJSON_def QueryContext_def)

lemma insert_failure_surfaced:
  "insertEventJSON (StmtFails e) t nid js = (Some e, t)"
  by (simp add: insertEventJSON_def ExecContext_def)

lemma insert_nil_fails:
  "insertEventJSON NoFault t nid None =
     (Some (StorageError ''NOT NULL constraint failed: roomserver_event_json.event_json''), t)"
  by (simp add: insertEventJSON_def ExecContext_def insertEventJSONSQL_def)

lemma scan_failure_surfaced:
  assumes "eventJSONSchema t" and "length ids \<le> SQLITE_MAX_VARIABLE_NUMBER"
    and "n < length (bulkSelectEventJSONSQL t ids)"
  shows "fst (bulkSelectEventJSON (ScanFails n e) t ids) = Inl (Err e)"
proof -
  let ?sel = "bulkSelectEventJSONSQL t ids"
  have split: "(map Inr ?sel)[n := Inl e] = map Inr (take n ?sel) @ Inl e # map Inr (drop (Suc n) ?sel)"
    using assms(3) by (simp add: upd_conv_take_nth_drop take_map drop_map)
  have "0 + length (take n ?sel) < length (replicate (length ids) \<lparr>EventNID = 0, EventJSON = None\<rparr>)"
    using assms(3) length_select_le_length [OF assms(1), of ids] by simp
  from read_rows_scan_error [OF this] assms(2) show ?thesis
    by (simp add: bulkSelectEventJSON_def QueryContext_def sqlite3_prepare_ok split)
qed

subsection \<open>What a call leaves in the table\<close>

lemma bulkSelectEventJSON_snd:
  "snd (bulkSelectEventJSON f t ids) = t"
  by (simp add: bulkSelectEventJSON_def QueryContext_def
        split: fault.splits option.splits sum.splits prod.splits)

lemma insertEventJSON_snd:
  "snd (insertEventJSON f t nid js) = t
   \<or> (\<exists>bs. js = Some bs \<and> nid \<notin> fst ` set t \<and> snd (insertEventJSON f t nid js) = t @ [(nid, bs)])"
  by (auto simp: insertEventJSON_def ExecContext_def insertEventJSONSQL_def
        split: fault.splits option.splits)

lemma run_call_keeps_rows: "set t \<subseteq> set (run_call t c)"
proof (cases c)
  case (InsertCall f nid js)
  with insertEventJSON_snd [of f t nid js] show ?thesis by auto
next
  case (FetchCall f ids)
  then show ?thesis by (simp add: bulkSelectEventJSON_snd)
qed

lemma run_calls_keeps_rows: "set t \<subseteq> set (run_calls t cs)"
  unfolding run_calls_def
proof (induction cs arbitrary: t)
  case Nil
  show ?case by simp
next
  case (Cons c cs)
  have "set t \<subseteq> set (run_call t c)" by (rule run_call_keeps_rows)
  also have "\<dots> \<subseteq> set (foldl run_call (run_call t c) cs)" by (rule Cons.IH)
  finally show ?case by simp
qed

lemma stored_run_call:
  assumes "stored t nid = Some js"
  shows "stored (run_call t c) nid = Some js"
proof (cases c)
  case (InsertCall f k v)
  with insertEventJSON_snd [of f t k v] assms show ?thesis
    by (auto simp: stored_def map_add_def)
next
  case (FetchCall f ids)
  with assms show ?thesis by (simp add: bulkSelectEventJSON_snd)
qed

lemma schema_run_call:
  assumes "eventJSONSchema t"
  shows "eventJSONSchema (run_call t c)"
proof (cases c)
  case (InsertCall f k v)
  with insertEventJSON_snd [of f t k v] assms show ?thesis
    by (auto simp: eventJSONSchema_def)
next
  case (FetchCall f ids)
  with assms show ?thesis by (simp add: bulkSelectEventJSON_snd)
qed

lemma stored_run_calls:
  "stored t nid = Some js \<Longrightarrow> stored (run_calls t cs) nid = Some js"
  unfolding run_calls_def
  by (induction cs arbitrary: t) (simp_all add: stored_run_call)

lemma schema_run_calls:
  "eventJSONSchema t \<Longrightarrow> eventJSONSchema (run_calls t cs)"
  unfolding run_calls_def
  by (induction cs arbitrary: t) (simp_all add: schema_run_call)

lemma schema_empty: "eventJSONSchema []"
  by (simp add: eventJSONSchema_def)


section \<open>The claims\<close>

text \<open>
  C1, as it is stated, for every sequence of identifiers, with duplicates: the call
  returns one entry for each distinct stored identifier requested. The function binds one
  SQL variable for each element of the sequence, so a sequence longer than the engine's
  limit makes \<^verbatim>\<open>QueryContext\<close> fail, and the function returns that error and no
  entries. Here the table holds \<open>(1, "a")\<close> and identifier 1 is requested 1000 times.
\<close>

theorem bulkSelectEventJSON_too_many_counterexample:
  "eventJSONSchema [(1, [97])]
   \<and> fst (bulkSelectEventJSON NoFault [(1, [97])] (replicate 1000 1))
       = Inl (Err (StorageError ''too many SQL variables''))
   \<and> fst (bulkSelectEventJSON NoFault [(1, [97])] (replicate 1000 1))
       \<noteq> Inr [\<lparr>EventNID = 1, EventJSON = Some [97]\<rparr>]"
  by (simp add: eventJSONSchema_def bulkSelectEventJSON_too_many SQLITE_MAX_VARIABLE_NUMBER_def)

text \<open>
  C1, amended. On a table that satisfies its schema, and with a driver that does not fail,
  \<^verbatim>\<open>bulkSelectEventJSON\<close> returns, for every sequence of identifiers (in any order,
  with or without duplicates) that is no longer than the engine's limit on SQL variables,
  a sequence that is strictly ascending by identifier (as signed 64-bit integers), that
  holds no identifier twice, whose identifiers are exactly the requested ones that have a
  stored row, and in which each identifier comes with its stored payload.
\<close>

theorem bulkSelectEventJSON_sorted_exact:
  assumes "eventJSONSchema t" and "length ids \<le> SQLITE_MAX_VARIABLE_NUMBER"
  shows "\<exists>rs. fst (bulkSelectEventJSON NoFault t ids) = Inr rs
           \<and> sorted_wrt (\<lambda>a b. sint (EventNID a) < sint (EventNID b)) rs
           \<and> distinct (map EventNID rs)
           \<and> EventNID ` set rs = set ids \<inter> fst ` set t
           \<and> (\<forall>r \<in> set rs. \<exists>bs. EventJSON r = Some bs \<and> stored t (EventNID r) = Some bs)"
proof -
  let ?sel = "bulkSelectEventJSONSQL t ids"
  let ?rs = "map pair_of ?sel"
  have ret: "fst (bulkSelectEventJSON NoFault t ids) = Inr ?rs"
    by (rule bulkSelectEventJSON_NoFault [OF assms(2)]) (rule length_select_le_length [OF assms(1)])
  have nid: "map EventNID ?rs = map fst ?sel"
    by (simp add: pair_of_def comp_def)
  have "sorted_wrt (<) (map (\<lambda>r. sint (fst r)) ?sel)"
    by (rule select_strictly_ascending [OF assms(1)])
  then have asc: "sorted_wrt (\<lambda>a b. sint (EventNID a) < sint (EventNID b)) ?rs"
    by (simp add: sorted_wrt_map pair_of_def)
  have dist: "distinct (map EventNID ?rs)"
    unfolding nid by (rule schema_select_distinct [OF assms(1)])
  have "set (map EventNID ?rs) = set ids \<inter> fst ` set t"
    unfolding nid by (force simp: set_bulkSelectEventJSONSQL)
  then have ids: "EventNID ` set ?rs = set ids \<inter> fst ` set t"
    by (simp add: image_image)
  have pay: "\<forall>r \<in> set ?rs. \<exists>bs. EventJSON r = Some bs \<and> stored t (EventNID r) = Some bs"
    using assms(1)
    by (auto simp: set_bulkSelectEventJSONSQL pair_of_def stored_def eventJSONSchema_def)
  from ret asc dist ids pay show ?thesis by blast
qed

theorem bulkSelectEventJSON_sorted_exact_witness:
  "eventJSONSchema [(3, [99]), (1, [97]), (2, [98])]
   \<and> length [3, 1, 3, 9 :: event_nid] \<le> SQLITE_MAX_VARIABLE_NUMBER
   \<and> (\<exists>rs. fst (bulkSelectEventJSON NoFault [(3, [99]), (1, [97]), (2, [98])] [3, 1, 3, 9]) = Inr rs
           \<and> sorted_wrt (\<lambda>a b. sint (EventNID a) < sint (EventNID b)) rs
           \<and> distinct (map EventNID rs)
           \<and> EventNID ` set rs = set [3, 1, 3, 9] \<inter> fst ` set ([(3, [99]), (1, [97]), (2, [98])] :: table)
           \<and> (\<forall>r \<in> set rs. \<exists>bs. EventJSON r = Some bs
                 \<and> stored [(3, [99]), (1, [97]), (2, [98])] (EventNID r) = Some bs))"
proof -
  have h: "eventJSONSchema [(3, [99]), (1, [97]), (2, [98])]"
    by (simp add: eventJSONSchema_def)
  have l: "length [3, 1, 3, 9 :: event_nid] \<le> SQLITE_MAX_VARIABLE_NUMBER"
    by (simp add: SQLITE_MAX_VARIABLE_NUMBER_def)
  from h l bulkSelectEventJSON_sorted_exact [OF h l] show ?thesis
    by blast
qed

text \<open>
  The scenario of the specification: after inserting \<open>(1, "a")\<close>, \<open>(3, "c")\<close>,
  \<open>(2, "b")\<close> in that order, fetching \<open>[3, 1, 2, 99]\<close> returns the three rows in
  ascending order.
\<close>

lemma insert_then_fetch_scenario:
  "fst (bulkSelectEventJSON NoFault
     (snd (insertEventJSON NoFault (snd (insertEventJSON NoFault
        (snd (insertEventJSON NoFault [] 1 (Some [97]))) 3 (Some [99]))) 2 (Some [98])))
     [3, 1, 2, 99])
   = Inr [\<lparr>EventNID = 1, EventJSON = Some [97]\<rparr>, \<lparr>EventNID = 2, EventJSON = Some [98]\<rparr>,
          \<lparr>EventNID = 3, EventJSON = Some [99]\<rparr>]"
  by (simp add: bulkSelectEventJSON_def QueryContext_def insertEventJSON_def ExecContext_def
      insertEventJSONSQL_def bulkSelectEventJSONSQL_def sqlite3_prepare_def
      SQLITE_MAX_VARIABLE_NUMBER_def)

text \<open>
  C2, as it is stated, for every table, identifier and pair of different payloads:
  inserting \<open>payloadA\<close> and then \<open>payloadB\<close> under one identifier succeeds twice and
  leaves \<open>payloadA\<close> stored. It fails in two ways. On a table that already holds the
  identifier with a third payload, the first call is itself the call that does not
  overwrite: with \<open>(7, "c")\<close> stored, inserting \<open>"a"\<close> then \<open>"b"\<close> under 7 leaves
  \<open>"c"\<close>. And a \<^verbatim>\<open>nil\<close> payload is bound as \<^verbatim>\<open>NULL\<close>, which the \<^verbatim>\<open>NOT NULL\<close>
  column refuses before the key conflict is looked at: on the empty table, inserting
  \<open>"a"\<close> and then \<^verbatim>\<open>nil\<close> under 7 makes the second call return an error.
\<close>

theorem insert_twice_counterexample:
  "\<not> (fst (insertEventJSON NoFault [(7, [99])] 7 (Some [97])) = None
      \<and> fst (insertEventJSON NoFault (snd (insertEventJSON NoFault [(7, [99])] 7 (Some [97]))) 7 (Some [98])) = None
      \<and> stored (snd (insertEventJSON NoFault (snd (insertEventJSON NoFault [(7, [99])] 7 (Some [97]))) 7 (Some [98]))) 7
          = Some [97])
   \<and> \<not> (fst (insertEventJSON NoFault [] 7 (Some [97])) = None
      \<and> fst (insertEventJSON NoFault (snd (insertEventJSON NoFault [] 7 (Some [97]))) 7 None) = None
      \<and> stored (snd (insertEventJSON NoFault (snd (insertEventJSON NoFault [] 7 (Some [97]))) 7 None)) 7
          = Some [97])"
  by (simp add: insertEventJSON_def ExecContext_def insertEventJSONSQL_def stored_def)

text \<open>
  C2, amended. On a table that does not hold the identifier, and with a driver that does
  not fail, inserting \<open>payloadA\<close> and then \<open>payloadB\<close> under that identifier, neither
  of them \<^verbatim>\<open>nil\<close>, succeeds on both calls, the second call leaves the table as the first
  left it, and the stored payload is \<open>payloadA\<close>. (This holds for all such payloads, so
  also for \<open>payloadA \<noteq> payloadB\<close>.)
\<close>

theorem insert_twice_keeps_first:
  assumes "nid \<notin> fst ` set t"
  shows "fst (insertEventJSON NoFault t nid (Some a)) = None
         \<and> fst (insertEventJSON NoFault (snd (insertEventJSON NoFault t nid (Some a))) nid (Some b)) = None
         \<and> snd (insertEventJSON NoFault (snd (insertEventJSON NoFault t nid (Some a))) nid (Some b))
             = snd (insertEventJSON NoFault t nid (Some a))
         \<and> stored (snd (insertEventJSON NoFault (snd (insertEventJSON NoFault t nid (Some a))) nid (Some b))) nid
             = Some a"
proof -
  let ?t1 = "t @ [(nid, a)]"
  have first: "insertEventJSON NoFault t nid (Some a) = (None, ?t1)"
    by (rule insertEventJSON_fresh [OF assms])
  have "nid \<in> fst ` set ?t1"
    by simp
  then have second: "insertEventJSON NoFault ?t1 nid (Some b) = (None, ?t1)"
    by (rule insertEventJSON_present)
  have "stored ?t1 nid = Some a"
    by (rule stored_fresh_insert [OF assms])
  with first second show ?thesis
    by simp
qed

theorem insert_twice_keeps_first_witness:
  "(7 :: event_nid) \<notin> fst ` set ([(3, [99])] :: table)
   \<and> fst (insertEventJSON NoFault [(3, [99])] 7 (Some [97])) = None
   \<and> fst (insertEventJSON NoFault (snd (insertEventJSON NoFault [(3, [99])] 7 (Some [97]))) 7 (Some [98])) = None
   \<and> snd (insertEventJSON NoFault (snd (insertEventJSON NoFault [(3, [99])] 7 (Some [97]))) 7 (Some [98]))
       = snd (insertEventJSON NoFault [(3, [99])] 7 (Some [97]))
   \<and> stored (snd (insertEventJSON NoFault (snd (insertEventJSON NoFault [(3, [99])] 7 (Some [97]))) 7 (Some [98]))) 7
       = Some [97]"
proof -
  have h: "(7 :: event_nid) \<notin> fst ` set ([(3, [99])] :: table)"
    by simp
  from h insert_twice_keeps_first [OF h, of "[97]" "[98]"] show ?thesis
    by (rule conjI)
qed

text \<open>
  C3, as it is stated, for every payload: after an insert under an identifier the table
  does not hold, fetching that identifier returns exactly the identifier with the payload.
  The \<^verbatim>\<open>nil\<close> payload is passed on unchecked and bound as \<^verbatim>\<open>NULL\<close>; the insert fails
  on the \<^verbatim>\<open>NOT NULL\<close> column, nothing is stored, and the fetch returns the empty
  sequence. Here the table is empty and the identifier is 5.
\<close>

theorem insert_nil_then_fetch_counterexample:
  "fst (insertEventJSON NoFault [] 5 None)
     = Some (StorageError ''NOT NULL constraint failed: roomserver_event_json.event_json'')
   \<and> fst (bulkSelectEventJSON NoFault (snd (insertEventJSON NoFault [] 5 None)) [5]) = Inr []
   \<and> fst (bulkSelectEventJSON NoFault (snd (insertEventJSON NoFault [] 5 None)) [5])
       \<noteq> Inr [\<lparr>EventNID = 5, EventJSON = None\<rparr>]"
  by (simp add: insert_nil_fails bulkSelectEventJSON_def QueryContext_def bulkSelectEventJSONSQL_def
      sqlite3_prepare_def SQLITE_MAX_VARIABLE_NUMBER_def)

text \<open>
  C3, amended. On a table that does not hold the identifier, and with a driver that does
  not fail, \<^verbatim>\<open>insertEventJSON\<close> of a payload that is not \<^verbatim>\<open>nil\<close> (it may be empty)
  succeeds, and a following \<^verbatim>\<open>bulkSelectEventJSON\<close> of that one identifier, on the table
  the insert left, returns exactly the one-element sequence of the identifier and the
  payload.
\<close>

theorem insert_then_fetch:
  assumes "nid \<notin> fst ` set t"
  shows "fst (insertEventJSON NoFault t nid (Some js)) = None
         \<and> fst (bulkSelectEventJSON NoFault (snd (insertEventJSON NoFault t nid (Some js))) [nid])
             = Inr [\<lparr>EventNID = nid, EventJSON = Some js\<rparr>]"
proof -
  let ?t1 = "t @ [(nid, js)]"
  have ins: "insertEventJSON NoFault t nid (Some js) = (None, ?t1)"
    by (rule insertEventJSON_fresh [OF assms])
  have sel: "bulkSelectEventJSONSQL ?t1 [nid] = [(nid, js)]"
    by (rule select_after_fresh_insert [OF assms])
  have "fst (bulkSelectEventJSON NoFault ?t1 [nid]) = Inr (map pair_of (bulkSelectEventJSONSQL ?t1 [nid]))"
    by (rule bulkSelectEventJSON_NoFault) (simp_all add: sel SQLITE_MAX_VARIABLE_NUMBER_def)
  with ins sel show ?thesis by (simp add: pair_of_def)
qed

theorem insert_then_fetch_witness:
  "(5 :: event_nid) \<notin> fst ` set ([(3, [99]), (8, [97])] :: table)
   \<and> fst (insertEventJSON NoFault [(3, [99]), (8, [97])] 5 (Some [101, 102])) = None
   \<and> fst (bulkSelectEventJSON NoFault (snd (insertEventJSON NoFault [(3, [99]), (8, [97])] 5 (Some [101, 102]))) [5])
       = Inr [\<lparr>EventNID = 5, EventJSON = Some [101, 102]\<rparr>]"
proof -
  have h: "(5 :: event_nid) \<notin> fst ` set ([(3, [99]), (8, [97])] :: table)"
    by simp
  from h insert_then_fetch [OF h, of "[101, 102]"] show ?thesis
    by (rule conjI)
qed


text \<open>
  C4, as it is stated, for every sequence of identifiers that holds identifiers with no
  stored payload: the call succeeds and leaves them out. A sequence longer than the
  engine's limit on SQL variables makes the call fail instead. Here the table holds
  \<open>(1, "a")\<close> and identifier 2, which is not stored, is requested 1000 times.
\<close>

theorem bulkSelectEventJSON_missing_counterexample:
  "eventJSONSchema [(1, [97])]
   \<and> stored [(1, [97])] 2 = None
   \<and> fst (bulkSelectEventJSON NoFault [(1, [97])] (replicate 1000 2))
       = Inl (Err (StorageError ''too many SQL variables''))
   \<and> fst (bulkSelectEventJSON NoFault [(1, [97])] (replicate 1000 2)) \<noteq> Inr []"
  by (simp add: eventJSONSchema_def stored_def bulkSelectEventJSON_too_many
      SQLITE_MAX_VARIABLE_NUMBER_def)

text \<open>
  C4, amended. On a table that satisfies its schema, and with a driver that does not fail,
  \<^verbatim>\<open>bulkSelectEventJSON\<close> returns a result and no error for every sequence of
  identifiers that is no longer than the engine's limit on SQL variables; a requested
  identifier with no stored payload has no entry in the result; every entry is a requested
  identifier with the bytes of a row of the table (there is no placeholder entry); and the
  result is no longer than the number of distinct identifiers requested.
\<close>

theorem bulkSelectEventJSON_omits_missing:
  assumes "eventJSONSchema t" and "length ids \<le> SQLITE_MAX_VARIABLE_NUMBER"
  shows "\<exists>rs. fst (bulkSelectEventJSON NoFault t ids) = Inr rs
           \<and> (\<forall>nid \<in> set ids. stored t nid = None \<longrightarrow> nid \<notin> EventNID ` set rs)
           \<and> (\<forall>r \<in> set rs. EventNID r \<in> set ids
                 \<and> (\<exists>bs. EventJSON r = Some bs \<and> (EventNID r, bs) \<in> set t))
           \<and> length rs \<le> card (set ids)"
proof -
  let ?sel = "bulkSelectEventJSONSQL t ids"
  let ?rs = "map pair_of ?sel"
  have ret: "fst (bulkSelectEventJSON NoFault t ids) = Inr ?rs"
    by (rule bulkSelectEventJSON_NoFault [OF assms(2)]) (rule length_select_le_length [OF assms(1)])
  have rows: "\<forall>r \<in> set ?rs. EventNID r \<in> set ids
                 \<and> (\<exists>bs. EventJSON r = Some bs \<and> (EventNID r, bs) \<in> set t)"
    by (auto simp: set_bulkSelectEventJSONSQL pair_of_def)
  have "\<forall>r \<in> set ?rs. stored t (EventNID r) \<noteq> None"
    by (auto simp: set_bulkSelectEventJSONSQL pair_of_def stored_def map_of_eq_None_iff
          intro: rev_image_eqI)
  then have miss: "\<forall>nid \<in> set ids. stored t nid = None \<longrightarrow> nid \<notin> EventNID ` set ?rs"
    by blast
  have len: "length ?rs \<le> card (set ids)"
    using length_select_le_card [OF assms(1), of ids] by simp
  from ret miss rows len show ?thesis by blast
qed

theorem bulkSelectEventJSON_omits_missing_witness:
  "eventJSONSchema [(1, [97])]
   \<and> length [1, 2 :: event_nid] \<le> SQLITE_MAX_VARIABLE_NUMBER
   \<and> (\<exists>rs. fst (bulkSelectEventJSON NoFault [(1, [97])] [1, 2]) = Inr rs
           \<and> (\<forall>nid \<in> set [1, 2]. stored [(1, [97])] nid = None \<longrightarrow> nid \<notin> EventNID ` set rs)
           \<and> (\<forall>r \<in> set rs. EventNID r \<in> set [1, 2]
                 \<and> (\<exists>bs. EventJSON r = Some bs \<and> (EventNID r, bs) \<in> set ([(1, [97])] :: table)))
           \<and> length rs \<le> card (set [1, 2 :: event_nid]))
   \<and> stored [(1, [97])] 2 = None
   \<and> fst (bulkSelectEventJSON NoFault [(1, [97])] [1, 2]) = Inr [\<lparr>EventNID = 1, EventJSON = Some [97]\<rparr>]"
proof -
  have h: "eventJSONSchema [(1, [97])]"
    by (simp add: eventJSONSchema_def)
  have l: "length [1, 2 :: event_nid] \<le> SQLITE_MAX_VARIABLE_NUMBER"
    by (simp add: SQLITE_MAX_VARIABLE_NUMBER_def)
  have m: "stored [(1, [97])] 2 = None"
    by (simp add: stored_def)
  have v: "fst (bulkSelectEventJSON NoFault [(1, [97])] [1, 2]) = Inr [\<lparr>EventNID = 1, EventJSON = Some [97]\<rparr>]"
    by (simp add: bulkSelectEventJSON_def QueryContext_def bulkSelectEventJSONSQL_def
        sqlite3_prepare_def SQLITE_MAX_VARIABLE_NUMBER_def)
  from h l m v bulkSelectEventJSON_omits_missing [OF h l] show ?thesis
    by blast
qed

text \<open>
  C5. For every table, \<^verbatim>\<open>bulkSelectEventJSON\<close> on an empty sequence of identifiers
  returns the empty result and no error, when the driver does not fail.
\<close>

theorem bulkSelectEventJSON_empty_ids:
  "fst (bulkSelectEventJSON NoFault t []) = Inr []"
  by (simp add: bulkSelectEventJSON_def QueryContext_def sqlite3_prepare_def
      bulkSelectEventJSONSQL_empty)

text \<open>
  C6. A payload stored under an identifier stays stored under it, unchanged, through
  every sequence of \<^verbatim>\<open>insertEventJSON\<close> and \<^verbatim>\<open>bulkSelectEventJSON\<close> calls, with
  any arguments and whatever the driver does during each call; no row of the table is
  ever removed; and a table with at most one row for each identifier keeps that property.
\<close>

theorem stored_payload_never_changes:
  assumes "stored t nid = Some js"
  shows "stored (run_calls t cs) nid = Some js
         \<and> set t \<subseteq> set (run_calls t cs)
         \<and> (eventJSONSchema t \<longrightarrow> eventJSONSchema (run_calls t cs))"
  using assms by (simp add: stored_run_calls schema_run_calls run_calls_keeps_rows)

theorem stored_payload_never_changes_witness:
  "stored [(1, [97])] 1 = Some [97]
   \<and> eventJSONSchema [(1, [97])]
   \<and> stored (run_calls [(1, [97])]
        [InsertCall NoFault 1 (Some [98]), FetchCall NoFault [1, 2], InsertCall NoFault 2 (Some [99]),
         InsertCall NoFault 1 None, InsertCall (StmtFails Canceled) 1 (Some [100]),
         FetchCall (NextFails 0 Canceled) [1]]) 1 = Some [97]
   \<and> set ([(1, [97])] :: table) \<subseteq> set (run_calls [(1, [97])]
        [InsertCall NoFault 1 (Some [98]), FetchCall NoFault [1, 2], InsertCall NoFault 2 (Some [99]),
         InsertCall NoFault 1 None, InsertCall (StmtFails Canceled) 1 (Some [100]),
         FetchCall (NextFails 0 Canceled) [1]])
   \<and> eventJSONSchema (run_calls [(1, [97])]
        [InsertCall NoFault 1 (Some [98]), FetchCall NoFault [1, 2], InsertCall NoFault 2 (Some [99]),
         InsertCall NoFault 1 None, InsertCall (StmtFails Canceled) 1 (Some [100]),
         FetchCall (NextFails 0 Canceled) [1]])"
proof -
  have h: "stored [(1, [97])] 1 = Some [97]"
    by (simp add: stored_def)
  have s: "eventJSONSchema [(1, [97])]"
    by (simp add: eventJSONSchema_def)
  from h s stored_payload_never_changes [OF h,
      of "[InsertCall NoFault 1 (Some [98]), FetchCall NoFault [1, 2], InsertCall NoFault 2 (Some [99]),
         InsertCall NoFault 1 None, InsertCall (StmtFails Canceled) 1 (Some [100]),
         FetchCall (NextFails 0 Canceled) [1]]"]
  show ?thesis by blast
qed

text \<open>
  C7, at a failing input. The table holds rows 1, 2 and 3, all three are requested, and
  the engine fails with an I/O error while fetching the second row: \<^verbatim>\<open>rows.Next()\<close>
  returns false and \<^verbatim>\<open>rows.Err()\<close> holds the error. The loop ends as if the result
  set were exhausted and the function returns the first row alone with a nil error: a
  truncated list, and the failure of the persistence layer is not surfaced.
\<close>

theorem iteration_error_swallowed:
  "fst (bulkSelectEventJSON (NextFails 1 (StorageError ''disk I/O error''))
          [(1, [97]), (2, [98]), (3, [99])] [1, 2, 3])
   = Inr [\<lparr>EventNID = 1, EventJSON = Some [97]\<rparr>]"
  by (simp add: bulkSelectEventJSON_def QueryContext_def bulkSelectEventJSONSQL_def
      sqlite3_prepare_def SQLITE_MAX_VARIABLE_NUMBER_def)

text \<open>
  C8, at a failing input. The table holds rows 1, 2 and 3, all three are requested, and
  the caller's context is cancelled after two rows have been read: \<^verbatim>\<open>rows.Next()\<close>
  returns false and \<^verbatim>\<open>rows.Err()\<close> is \<^verbatim>\<open>context.Canceled\<close>. The function returns
  the two rows read so far with a nil error, not a cancellation error.
\<close>

theorem cancellation_during_iteration_swallowed:
  "fst (bulkSelectEventJSON (NextFails 2 Canceled)
          [(1, [97]), (2, [98]), (3, [99])] [1, 2, 3])
   = Inr [\<lparr>EventNID = 1, EventJSON = Some [97]\<rparr>, \<lparr>EventNID = 2, EventJSON = Some [98]\<rparr>]"
  by (simp add: bulkSelectEventJSON_def QueryContext_def bulkSelectEventJSONSQL_def
      sqlite3_prepare_def SQLITE_MAX_VARIABLE_NUMBER_def)

text \<open>
  C9. On a table that satisfies its schema (the primary key on \<^verbatim>\<open>event_nid\<close>), the
  select statement returns no more rows than identifiers were passed, and the indexing
  \<^verbatim>\<open>results[i]\<close> in the loop of \<^verbatim>\<open>bulkSelectEventJSON\<close> never panics, whatever the
  driver does: \<open>i\<close> is below \<^verbatim>\<open>len(eventNIDs)\<close> at every iteration.
\<close>

theorem results_index_in_bounds:
  assumes "eventJSONSchema t"
  shows "length (bulkSelectEventJSONSQL t ids) \<le> length ids
         \<and> fst (bulkSelectEventJSON f t ids) \<noteq> Inl Panic_index_out_of_range"
  using length_select_le_length [OF assms, of ids]
  by (simp add: bulkSelectEventJSON_no_panic)

theorem results_index_in_bounds_witness:
  "eventJSONSchema [(1, [97]), (2, [98])]
   \<and> length (bulkSelectEventJSONSQL [(1, [97]), (2, [98])] [2, 2, 1]) \<le> length [2, 2, 1 :: event_nid]
   \<and> fst (bulkSelectEventJSON NoFault [(1, [97]), (2, [98])] [2, 2, 1]) \<noteq> Inl Panic_index_out_of_range"
proof -
  have h: "eventJSONSchema [(1, [97]), (2, [98])]"
    by (simp add: eventJSONSchema_def)
  from h results_index_in_bounds [OF h, of "[2, 2, 1]" NoFault] show ?thesis
    by (rule conjI)
qed

text \<open>
  The bound rests on the primary key: were two rows to share an identifier, one
  requested identifier would select both and the second write would be out of range.
\<close>

lemma panic_without_primary_key:
  "fst (bulkSelectEventJSON NoFault [(1, [97]), (1, [98])] [1]) = Inl Panic_index_out_of_range"
  by (simp add: bulkSelectEventJSON_def QueryContext_def bulkSelectEventJSONSQL_def
      sqlite3_prepare_def SQLITE_MAX_VARIABLE_NUMBER_def)

text \<open>
  C10. \<^verbatim>\<open>bulkSelectEventJSON\<close> only reads: whatever the identifiers and whatever the
  driver does, whether the call returns a result or fails, the table after the call is
  the table before it.
\<close>

theorem bulkSelectEventJSON_read_only:
  "snd (bulkSelectEventJSON f t ids) = t"
  by (rule bulkSelectEventJSON_snd)

end
